theory Spec2Isabelle
  imports Main
begin

section \<open>Host values shared by the scripts\<close>

text \<open>
  The page scripts raise only one kind of exception on the paths modelled here: the
  \<^verbatim>\<open>TypeError\<close> of reading a property of \<^verbatim>\<open>null\<close> or \<^verbatim>\<open>undefined\<close>.
\<close>

datatype js_error = TypeError

section \<open>The carousel slider\<close>

text \<open>
  A child of the \<^verbatim>\<open>.image-list\<close> container. \<open>ident\<close> names the authored slide whose
  content the element renders, \<open>offsetWidth\<close> is its rendered width in pixels and
  \<open>cloned\<close> tells a node made by \<^verbatim>\<open>cloneNode(true)\<close> from an authored one: a deep
  clone renders the same content at the same width and is a different node.
\<close>

record element =
  ident :: nat
  offsetWidth :: int
  cloned :: bool

definition cloneNode :: "element \<Rightarrow> element" where
  "cloneNode e = e\<lparr>cloned := True\<rparr>"

text \<open>
  The module-level state of the slider.
  \<^item> \<open>children\<close> is \<^verbatim>\<open>slides.children\<close>, which \<^verbatim>\<open>slideItems\<close> aliases: a live
    collection, so \<^verbatim>\<open>slideItems.length\<close> is the length of this list at the moment it
    is read.
  \<^item> \<open>slideWidth\<close> and \<open>currentIndex\<close> are the variables of those names.
  \<^item> \<open>transform\<close> is the pixel argument \<open>x\<close> of the value \<^verbatim>\<open>translateX(xpx)\<close> that the
    script has last assigned to \<^verbatim>\<open>slides.style.transform\<close>, and \<open>transition\<close> the value it
    has last assigned to \<^verbatim>\<open>slides.style.transition\<close>, the empty string while it has
    assigned none.
  \<^item> \<open>clock\<close> is the time in milliseconds and \<open>timeouts\<close> holds the due time of every
    pending \<^verbatim>\<open>setTimeout\<close> callback of \<^verbatim>\<open>slideNext\<close>, in the order they were set.
\<close>

record slider =
  children :: "element list"
  slideWidth :: int
  currentIndex :: int
  transform :: int
  transition :: string
  clock :: nat
  timeouts :: "nat list"

text \<open>
  Lines 56 to 70. The argument is the list of element children of the \<^verbatim>\<open>.image-list\<close>
  container, \<open>None\<close> when \<^verbatim>\<open>querySelector\<close> finds no such container. Reading
  \<^verbatim>\<open>slides.children\<close> of \<^verbatim>\<open>null\<close>, or \<^verbatim>\<open>offsetWidth\<close> of the missing first child of
  an empty container, raises. \<^verbatim>\<open>appendChild(firstClone)\<close> adds at the end;
  \<^verbatim>\<open>insertBefore(lastClone, slideItems[0])\<close> adds in front of the first child.
\<close>

definition build :: "element list option \<Rightarrow> js_error + slider" where
  "build container =
     (case container of
        None \<Rightarrow> Inl TypeError
      | Some slideItems \<Rightarrow>
          (case slideItems of
             [] \<Rightarrow> Inl TypeError
           | first # _ \<Rightarrow>
               (let w = offsetWidth first;
                    firstClone = cloneNode first;
                    lastClone = cloneNode (last slideItems);
                    appended = slideItems @ [firstClone];
                    inserted = lastClone # appended;
                    i = 1
                in Inr \<lparr>children = inserted, slideWidth = w, currentIndex = i,
                         transform = - w * i, transition = [], clock = 0,
                         timeouts = []\<rparr>)))"

definition REWIND_DELAY :: nat where
  "REWIND_DELAY = 500"

definition TICK_INTERVAL :: nat where
  "TICK_INTERVAL = 3000"

text \<open>The body of the callback that \<^verbatim>\<open>slideNext\<close> hands to \<^verbatim>\<open>setTimeout\<close> (lines 80 to 82).\<close>

definition rewind :: "slider \<Rightarrow> slider" where
  "rewind s =
     (let s1 = s\<lparr>transition := ''none''\<rparr>;
          s2 = s1\<lparr>currentIndex := 1\<rparr>
      in s2\<lparr>transform := - slideWidth s2 * currentIndex s2\<rparr>)"

text \<open>
  Lines 73 to 85. The comparison reads the live length of the container's children. When
  it holds, a timeout due \<open>REWIND_DELAY\<close> after the present instant is added.
\<close>

definition slideNext :: "slider \<Rightarrow> slider" where
  "slideNext s =
     (let s1 = s\<lparr>currentIndex := currentIndex s + 1\<rparr>;
          s2 = s1\<lparr>transition := ''transform 0.5s ease-in-out''\<rparr>;
          s3 = s2\<lparr>transform := - slideWidth s2 * currentIndex s2\<rparr>
      in if currentIndex s3 = int (length (children s3))
         then s3\<lparr>timeouts := timeouts s3 @ [clock s3 + REWIND_DELAY]\<rparr>
         else s3)"

text \<open>
  The timer facility. \<open>elapse d\<close> lets \<open>d\<close> milliseconds pass: every pending timeout
  that is due by then runs, in the order the timeouts were set, and leaves the pending
  list. A timeout due at the very instant of a later event runs before that event.
\<close>

fun fire :: "nat \<Rightarrow> slider \<Rightarrow> slider" where
  "fire 0 s = s"
| "fire (Suc n) s = fire n (rewind s)"

definition elapse :: "nat \<Rightarrow> slider \<Rightarrow> slider" where
  "elapse d s =
     (let t = clock s + d;
          due = filter (\<lambda>x. x \<le> t) (timeouts s);
          later = filter (\<lambda>x. t < x) (timeouts s)
      in (fire (length due) s)\<lparr>clock := t, timeouts := later\<rparr>)"

text \<open>
  \<^verbatim>\<open>setInterval(slideNext, d)\<close>: the state right after the \<open>k\<close>-th call of
  \<^verbatim>\<open>slideNext\<close>, the calls being \<open>d\<close> milliseconds apart. The script uses
  \<open>d = TICK_INTERVAL\<close>.
\<close>

fun ticks :: "nat \<Rightarrow> nat \<Rightarrow> slider \<Rightarrow> slider" where
  "ticks d 0 s = s"
| "ticks d (Suc k) s = slideNext (elapse d (ticks d k s))"

text \<open>
  Any other timing of the page: a history is a list of events, each a call of
  \<^verbatim>\<open>slideNext\<close> or a lapse of time in which the due timeouts run.
\<close>

datatype event = Tick | Lapse nat

fun run :: "event list \<Rightarrow> slider \<Rightarrow> slider" where
  "run [] s = s"
| "run (Tick # es) s = run es (slideNext s)"
| "run (Lapse d # es) s = run es (elapse d s)"

text \<open>
  Observations from a page load: the state right after the \<open>k\<close>-th tick, before a
  rewind that tick has set can run, and the state once \<open>REWIND_DELAY\<close> has passed
  after the \<open>k\<close>-th tick (what the view rests on until the next tick).
\<close>

definition after_tick :: "nat \<Rightarrow> nat \<Rightarrow> element list option \<Rightarrow> js_error + slider" where
  "after_tick d k container =
     (case build container of
        Inl e \<Rightarrow> Inl e
      | Inr s \<Rightarrow> Inr (ticks d k s))"

definition at_rest :: "nat \<Rightarrow> nat \<Rightarrow> element list option \<Rightarrow> js_error + slider" where
  "at_rest d k container =
     (case build container of
        Inl e \<Rightarrow> Inl e
      | Inr s \<Rightarrow> Inr (elapse REWIND_DELAY (ticks d k s)))"

definition cursor_after_tick :: "nat \<Rightarrow> nat \<Rightarrow> element list option \<Rightarrow> js_error + int" where
  "cursor_after_tick d k container = map_sum id currentIndex (after_tick d k container)"

definition rendered_cursor :: "nat \<Rightarrow> nat \<Rightarrow> element list option \<Rightarrow> js_error + int" where
  "rendered_cursor d k container = map_sum id currentIndex (at_rest d k container)"

text \<open>
  Ticks at any spacing: \<open>ticks_spaced ds\<close> runs one call of \<^verbatim>\<open>slideNext\<close> for each entry
  of \<open>ds\<close>, the \<open>i\<close>-th call coming \<open>ds ! i\<close> milliseconds after the one before it (the
  first after the build), and \<open>cursor_after_gaps\<close> is the cursor right after the last of
  them, before a rewind that call has set can run.
\<close>

fun ticks_spaced :: "nat list \<Rightarrow> slider \<Rightarrow> slider" where
  "ticks_spaced [] s = s"
| "ticks_spaced (d # ds) s = ticks_spaced ds (slideNext (elapse d s))"

definition cursor_after_gaps :: "nat list \<Rightarrow> element list option \<Rightarrow> js_error + int" where
  "cursor_after_gaps ds container =
     (case build container of
        Inl e \<Rightarrow> Inl e
      | Inr s \<Rightarrow> Inr (currentIndex (ticks_spaced ds s)))"

text \<open>What a test of the slider samples: cursor, offset, transition and pending timeouts.\<close>

definition snapshot :: "slider \<Rightarrow> int \<times> int \<times> string \<times> nat list" where
  "snapshot s = (currentIndex s, transform s, transition s, timeouts s)"

text \<open>
  The element of the track that lies in the viewport when the track is translated by
  \<open>- slideWidth * currentIndex\<close> and all children have width \<open>slideWidth\<close>: the child
  at index \<open>currentIndex\<close>, and nothing when that index is outside the track.
\<close>

definition in_view :: "slider \<Rightarrow> element option" where
  "in_view s =
     (if 0 \<le> currentIndex s \<and> nat (currentIndex s) < length (children s)
      then Some (children s ! nat (currentIndex s))
      else None)"

text \<open>Two elements paint the same pixels: same content at the same width.\<close>

definition same_pixels :: "element \<Rightarrow> element \<Rightarrow> bool" where
  "same_pixels a b = (ident a = ident b \<and> offsetWidth a = offsetWidth b)"

text \<open>Authored slides \<open>0 .. n - 1\<close> of one width, as the scenarios of the specification use.\<close>

definition authored :: "nat \<Rightarrow> int \<Rightarrow> element list" where
  "authored n w = map (\<lambda>i. \<lparr>ident = i, offsetWidth = w, cloned = False\<rparr>) [0..<n]"

text \<open>
  The steady state between two ticks, as the proofs track it: the track and the width are
  those of the build, no timeout is pending, and the cursor is where \<open>k\<close> ticks put it.
\<close>

definition settled :: "nat \<Rightarrow> nat \<Rightarrow> slider \<Rightarrow> slider \<Rightarrow> bool" where
  "settled n k s0 s =
     (children s = children s0 \<and> slideWidth s = slideWidth s0 \<and>
      currentIndex s = 1 + int (k mod (n + 1)) \<and> timeouts s = [])"

text \<open>The offset is the one the cursor and the width \<open>w\<close> of the build give.\<close>

definition aligned :: "int \<Rightarrow> slider \<Rightarrow> bool" where
  "aligned w s = (slideWidth s = w \<and> transform s = - w * currentIndex s)"

section \<open>The banner rotator\<close>

text \<open>
  \<open>indexBanner\<close> is the variable of that name; \<open>display\<close> holds the inline style
  \<^verbatim>\<open>display\<close> of every element of class \<^verbatim>\<open>banner-image\<close>, in document order (the
  collection \<^verbatim>\<open>bannerList\<close>).
\<close>

record banners =
  indexBanner :: nat
  display :: "string list"

text \<open>The loop of lines 46 to 48, from index \<open>i\<close> on.\<close>

function hide_from :: "nat \<Rightarrow> string list \<Rightarrow> string list" where
  "hide_from i ds = (if i < length ds then hide_from (Suc i) (ds[i := ''none'']) else ds)"
  by pat_completeness auto
termination
  by (relation "measure (\<lambda>(i, ds). length ds - i)") auto

text \<open>
  Lines 37 to 51. With no banner on the page \<^verbatim>\<open>bannerList[indexBanner]\<close> is
  \<^verbatim>\<open>undefined\<close> and reading its \<^verbatim>\<open>style\<close> raises.
\<close>

definition changeBackground :: "banners \<Rightarrow> js_error + banners" where
  "changeBackground b =
     (let b1 = (if length (display b) \<le> indexBanner b then b\<lparr>indexBanner := 0\<rparr> else b);
          b2 = b1\<lparr>display := hide_from 0 (display b1)\<rparr>
      in if indexBanner b2 < length (display b2)
         then Inr (b2\<lparr>display := (display b2)[indexBanner b2 := ''block'']\<rparr>)
         else Inl TypeError)"

definition nextBanner :: "banners \<Rightarrow> js_error + banners" where
  "nextBanner b = changeBackground (b\<lparr>indexBanner := indexBanner b + 1\<rparr>)"

text \<open>Lines 27 to 29: the state once the script has loaded, from the banners' styles.\<close>

definition load_banners :: "string list \<Rightarrow> js_error + banners" where
  "load_banners ds = changeBackground \<lparr>indexBanner = 0, display = ds\<rparr>"

text \<open>
  \<^verbatim>\<open>setInterval(nextBanner, 3000)\<close>: the state after \<open>k\<close> rotation steps, and the state
  at \<open>t\<close> milliseconds after the load. An exception at load time ends the script before
  the interval is set.
\<close>

fun rotations :: "nat \<Rightarrow> string list \<Rightarrow> js_error + banners" where
  "rotations 0 ds = load_banners ds"
| "rotations (Suc k) ds =
     (case rotations k ds of Inl e \<Rightarrow> Inl e | Inr b \<Rightarrow> nextBanner b)"

definition BANNER_INTERVAL :: nat where
  "BANNER_INTERVAL = 3000"

definition banner_at :: "nat \<Rightarrow> string list \<Rightarrow> js_error + banners" where
  "banner_at t ds = rotations (t div BANNER_INTERVAL) ds"

section \<open>The contact form\<close>

text \<open>
  A script string is a sequence of UTF-16 code units. \<open>lit\<close> embeds an ASCII literal.
  \<^verbatim>\<open>trim\<close> removes the white space and line terminator code units from both ends.
\<close>

type_synonym jsstring = "nat list"

definition lit :: "string \<Rightarrow> jsstring" where
  "lit cs = map of_char cs"

definition isWhiteSpace :: "nat \<Rightarrow> bool" where
  "isWhiteSpace c =
     (c \<in> set [9, 10, 11, 12, 13, 32, 160, 5760, 8232, 8233, 8239, 8287, 12288, 65279]
      \<or> (8192 \<le> c \<and> c \<le> 8202))"

definition trim :: "jsstring \<Rightarrow> jsstring" where
  "trim s = rev (dropWhile isWhiteSpace (rev (dropWhile isWhiteSpace s)))"

text \<open>
  The nodes the script looks up by id: a control with its current and its default value,
  or a form with the ids of the controls it owns. \<open>alerts\<close> lists the dialogs shown,
  oldest first; \<open>resets_pending\<close> counts the zero-delay timeouts set and not yet run.
\<close>

datatype node = Input (current: jsstring) (defaultValue: jsstring) | Form (controls: "string list")

record page =
  document :: "string \<rightharpoonup> node"
  alerts :: "jsstring list"
  resets_pending :: nat

text \<open>
  \<^verbatim>\<open>document.getElementById(i).value.trim()\<close>: no element gives \<^verbatim>\<open>null\<close>, a form has no
  \<^verbatim>\<open>value\<close>; both raise.
\<close>

definition trimmed_value :: "page \<Rightarrow> string \<Rightarrow> js_error + jsstring" where
  "trimmed_value p i =
     (case document p i of
        Some (Input v d) \<Rightarrow> Inr (trim v)
      | Some (Form cs) \<Rightarrow> Inl TypeError
      | None \<Rightarrow> Inl TypeError)"

definition success_message :: "jsstring \<Rightarrow> jsstring \<Rightarrow> jsstring" where
  "success_message name email =
     lit ''Thank you, '' @ name @ lit ''! We have received your message.'' @ [10] @
     lit ''We will contact you at '' @ email @ lit '' soon.''"

definition error_message :: jsstring where
  "error_message = lit ''Please fill out all fields before submitting the form.''"

text \<open>Lines 2 to 21. A string is truthy exactly when it is not empty.\<close>

definition formValidation :: "page \<Rightarrow> js_error + page" where
  "formValidation p =
     (case trimmed_value p ''name-input'' of
        Inl e \<Rightarrow> Inl e
      | Inr name \<Rightarrow>
          (case trimmed_value p ''email'' of
             Inl e \<Rightarrow> Inl e
           | Inr email \<Rightarrow>
               (case trimmed_value p ''message'' of
                  Inl e \<Rightarrow> Inl e
                | Inr message \<Rightarrow>
                    if name \<noteq> [] \<and> email \<noteq> [] \<and> message \<noteq> []
                    then Inr (p\<lparr>alerts := alerts p @ [success_message name email],
                                 resets_pending := Suc (resets_pending p)\<rparr>)
                    else Inr (p\<lparr>alerts := alerts p @ [error_message]\<rparr>))))"

text \<open>
  The timeout's callback, \<^verbatim>\<open>document.getElementById("contact-form").reset()\<close>: every
  control the form owns takes its default value.
\<close>

definition reset_control :: "string \<Rightarrow> (string \<rightharpoonup> node) \<Rightarrow> (string \<rightharpoonup> node)" where
  "reset_control i doc =
     (case doc i of
        Some (Input v d) \<Rightarrow> doc(i \<mapsto> Input d d)
      | Some (Form cs) \<Rightarrow> doc
      | None \<Rightarrow> doc)"

definition reset_form :: "page \<Rightarrow> js_error + page" where
  "reset_form p =
     (case document p ''contact-form'' of
        Some (Form cs) \<Rightarrow> Inr (p\<lparr>document := fold reset_control cs (document p)\<rparr>)
      | Some (Input v d) \<Rightarrow> Inl TypeError
      | None \<Rightarrow> Inl TypeError)"

text \<open>Running the pending zero-delay timeouts once the click handler has returned.\<close>

fun run_resets :: "nat \<Rightarrow> page \<Rightarrow> js_error + page" where
  "run_resets 0 p = Inr p"
| "run_resets (Suc n) p =
     (case reset_form p of Inl e \<Rightarrow> Inl e | Inr p' \<Rightarrow> run_resets n p')"

definition click_submit :: "page \<Rightarrow> js_error + page" where
  "click_submit p =
     (case formValidation p of
        Inl e \<Rightarrow> Inl e
      | Inr p' \<Rightarrow> run_resets (resets_pending p') (p'\<lparr>resets_pending := 0\<rparr>))"

text \<open>
  A page whose three controls hold the given values, with empty defaults, all owned by
  the contact form; no dialog shown and no timeout pending.
\<close>

definition filled_page :: "jsstring \<Rightarrow> jsstring \<Rightarrow> jsstring \<Rightarrow> page" where
  "filled_page n e m =
     \<lparr>document =
        [''name-input'' \<mapsto> Input n [], ''email'' \<mapsto> Input e [], ''message'' \<mapsto> Input m [],
         ''contact-form'' \<mapsto> Form [''name-input'', ''email'', ''message'']],
      alerts = [], resets_pending = 0\<rparr>"

section \<open>The mobile menu\<close>

text \<open>
  A statement either completes or throws, and a throw keeps the changes made before it.
\<close>

datatype 'a outcome = Done 'a | Threw js_error 'a

fun state_of :: "'a outcome \<Rightarrow> 'a" where
  "state_of (Done s) = s"
| "state_of (Threw e s) = s"

fun run_steps :: "('a \<Rightarrow> 'a outcome) list \<Rightarrow> 'a \<Rightarrow> 'a outcome" where
  "run_steps [] s = Done s"
| "run_steps (f # fs) s =
     (case f s of Done s' \<Rightarrow> run_steps fs s' | Threw e s' \<Rightarrow> Threw e s')"

text \<open>
  The parts of an element that the menu code touches: its class list (an ordered set of
  tokens), its attributes and the inline style \<^verbatim>\<open>overflow\<close>.
\<close>

record dom_element =
  classList :: "string list"
  attributes :: "string \<rightharpoonup> string"
  style_overflow :: string

definition classList_add :: "string \<Rightarrow> dom_element \<Rightarrow> dom_element" where
  "classList_add c e =
     e\<lparr>classList := (if c \<in> set (classList e) then classList e else classList e @ [c])\<rparr>"

definition classList_remove :: "string \<Rightarrow> dom_element \<Rightarrow> dom_element" where
  "classList_remove c e = e\<lparr>classList := removeAll c (classList e)\<rparr>"

definition setAttribute :: "string \<Rightarrow> string \<Rightarrow> dom_element \<Rightarrow> dom_element" where
  "setAttribute k v e = e\<lparr>attributes := (attributes e)(k \<mapsto> v)\<rparr>"

definition set_overflow :: "string \<Rightarrow> dom_element \<Rightarrow> dom_element" where
  "set_overflow v e = e\<lparr>style_overflow := v\<rparr>"

text \<open>
  \<open>isMenuOpen\<close> is the field of \<^verbatim>\<open>Navigation\<close>. The elements live in a store, and
  \<open>mobileToggle\<close>, \<open>nav\<close> and \<open>body\<close> are the entries of \<^verbatim>\<open>DOM.elements\<close>: the
  address of the element, or \<open>None\<close> when the entry is \<^verbatim>\<open>null\<close> or missing. Two
  entries may hold the same address.
\<close>

record navigation =
  isMenuOpen :: bool
  store :: "nat \<Rightarrow> dom_element"
  mobileToggle :: "nat option"
  nav :: "nat option"
  body :: "nat option"

definition on_element ::
  "(navigation \<Rightarrow> nat option) \<Rightarrow> (dom_element \<Rightarrow> dom_element) \<Rightarrow> navigation \<Rightarrow> navigation outcome" where
  "on_element entry f s =
     (case entry s of
        None \<Rightarrow> Threw TypeError s
      | Some a \<Rightarrow> Done (s\<lparr>store := (store s)(a := f (store s a))\<rparr>))"

definition set_isMenuOpen :: "bool \<Rightarrow> navigation \<Rightarrow> navigation outcome" where
  "set_isMenuOpen v s = Done (s\<lparr>isMenuOpen := v\<rparr>)"

text \<open>Lines 264 to 275.\<close>

definition openMobileMenu :: "navigation \<Rightarrow> navigation outcome" where
  "openMobileMenu s =
     (if isMenuOpen s then Done s
      else run_steps
        [set_isMenuOpen True,
         on_element mobileToggle (classList_add ''active''),
         on_element nav (classList_add ''mobile-menu-open''),
         on_element body (set_overflow ''hidden''),
         on_element mobileToggle (setAttribute ''aria-expanded'' ''true''),
         on_element nav (setAttribute ''aria-hidden'' ''false'')] s)"

text \<open>Lines 280 to 291.\<close>

definition closeMobileMenu :: "navigation \<Rightarrow> navigation outcome" where
  "closeMobileMenu s =
     (if \<not> isMenuOpen s then Done s
      else run_steps
        [set_isMenuOpen False,
         on_element mobileToggle (classList_remove ''active''),
         on_element nav (classList_remove ''mobile-menu-open''),
         on_element body (set_overflow []),
         on_element mobileToggle (setAttribute ''aria-expanded'' ''false''),
         on_element nav (setAttribute ''aria-hidden'' ''true'')] s)"

text \<open>
  A page as it is loaded: the menu closed, and the toggle, the navigation and the body
  three distinct elements with no class, no attribute and no inline style.
\<close>

definition closed_menu :: navigation where
  "closed_menu =
     \<lparr>isMenuOpen = False,
      store = (\<lambda>a. \<lparr>classList = [], attributes = Map.empty, style_overflow = []\<rparr>),
      mobileToggle = Some 0, nav = Some 1, body = Some 2\<rparr>"

section \<open>Properties of the carousel slider\<close>

subsection \<open>Build\<close>

lemma build_Inr:
  "build (Some els) = Inr s \<Longrightarrow> els \<noteq> [] \<and>
     s = \<lparr>children = cloneNode (last els) # els @ [cloneNode (hd els)],
          slideWidth = offsetWidth (hd els), currentIndex = 1,
          transform = - offsetWidth (hd els), transition = [], clock = 0, timeouts = []\<rparr>"
  by (auto simp: build_def Let_def split: list.splits)

lemma build_Some:
  "els \<noteq> [] \<Longrightarrow> build (Some els) =
     Inr \<lparr>children = cloneNode (last els) # els @ [cloneNode (hd els)],
          slideWidth = offsetWidth (hd els), currentIndex = 1,
          transform = - offsetWidth (hd els), transition = [], clock = 0, timeouts = []\<rparr>"
  by (cases els) (simp_all add: build_def Let_def)

lemma build_container: "build c = Inr s \<Longrightarrow> \<exists>els. c = Some els"
  by (cases c) (simp_all add: build_def)

lemma authored_3_300:
  "authored 3 300 \<noteq> []" "offsetWidth (hd (authored 3 300)) = 300" "length (authored 3 300) = 3"
  by (simp_all add: authored_def upt_rec)

text \<open>
  Claim C5. For every \<open>N \<ge> 1\<close> authored slides the build succeeds; the extended track has
  \<open>N + 2\<close> children, a clone of the last slide in front and a clone of the first slide at
  the end, each painting the pixels of its original; the cursor is \<open>1\<close>; the offset is
  \<open>- W\<close> for the width \<open>W\<close> of the first slide; and the build writes no transition and
  sets no timeout, so the offset is put in place directly.
\<close>

theorem build_extended_track:
  assumes "els \<noteq> []"
  shows "\<exists>s. build (Some els) = Inr s \<and>
           length (children s) = length els + 2 \<and>
           children s = cloneNode (last els) # els @ [cloneNode (hd els)] \<and>
           same_pixels (children s ! 0) (last els) \<and>
           same_pixels (children s ! (length els + 1)) (hd els) \<and>
           currentIndex s = 1 \<and>
           slideWidth s = offsetWidth (hd els) \<and>
           transform s = - slideWidth s \<and>
           transition s = [] \<and> timeouts s = []"
  using build_Some[OF assms]
  by (simp add: same_pixels_def cloneNode_def nth_append)

theorem build_extended_track_witness:
  "authored 3 300 \<noteq> [] \<and>
   (\<exists>s. build (Some (authored 3 300)) = Inr s \<and> length (children s) = 5 \<and>
        currentIndex s = 1 \<and> transform s = - 300 \<and> transition s = [])"
proof -
  from build_extended_track[OF authored_3_300(1)] authored_3_300 show ?thesis by auto
qed

subsection \<open>The offset follows the cursor\<close>

lemma slideNext_offset:
  "transform (slideNext s) = - slideWidth s * currentIndex (slideNext s) \<and>
   slideWidth (slideNext s) = slideWidth s"
  by (simp add: slideNext_def Let_def)

lemma rewind_offset:
  "transform (rewind s) = - slideWidth s * currentIndex (rewind s) \<and>
   slideWidth (rewind s) = slideWidth s"
  by (simp add: rewind_def Let_def)

lemma aligned_slideNext: "aligned w s \<Longrightarrow> aligned w (slideNext s)"
  by (simp add: aligned_def slideNext_def Let_def)

lemma aligned_rewind: "aligned w s \<Longrightarrow> aligned w (rewind s)"
  by (simp add: aligned_def rewind_def Let_def)

lemma aligned_fire: "aligned w s \<Longrightarrow> aligned w (fire n s)"
  by (induction n arbitrary: s) (simp_all add: aligned_rewind)

lemma aligned_elapse: "aligned w s \<Longrightarrow> aligned w (elapse d s)"
  using aligned_fire[of w s] by (simp add: elapse_def Let_def aligned_def)

lemma aligned_run: "aligned w s \<Longrightarrow> aligned w (run es s)"
proof (induction es arbitrary: s)
  case Nil
  then show ?case by simp
next
  case (Cons e es)
  then show ?case by (cases e) (simp_all add: aligned_slideNext aligned_elapse)
qed

lemma aligned_build: "build c = Inr s \<Longrightarrow> aligned (slideWidth s) s"
proof -
  assume b: "build c = Inr s"
  then obtain els where "c = Some els" using build_container by blast
  with b build_Inr[of els s] show ?thesis by (auto simp: aligned_def)
qed

text \<open>
  Claim C6. After the build the offset is \<open>- W * Cursor\<close>; each of the two operations that
  change the cursor (the tick and the rewind) writes the offset \<open>- W * Cursor\<close> for the
  cursor it leaves, from any state; and so the offset is \<open>- W * Cursor\<close>, with \<open>W\<close> the
  width measured at the build, after every history of ticks and timer runs, whatever their
  timing.
\<close>

theorem offset_follows_cursor:
  assumes "build c = Inr s0"
  shows "transform s0 = - slideWidth s0 * currentIndex s0 \<and>
         (\<forall>s. transform (slideNext s) = - slideWidth s * currentIndex (slideNext s)) \<and>
         (\<forall>s. transform (rewind s) = - slideWidth s * currentIndex (rewind s)) \<and>
         (\<forall>es. slideWidth (run es s0) = slideWidth s0 \<and>
               transform (run es s0) = - slideWidth s0 * currentIndex (run es s0))"
  using aligned_run[OF aligned_build[OF assms]] aligned_build[OF assms]
  by (simp add: aligned_def slideNext_offset rewind_offset)

theorem offset_follows_cursor_witness:
  "\<exists>s0. build (Some (authored 3 300)) = Inr s0 \<and> slideWidth s0 = 300 \<and>
      transform s0 = - 300 \<and>
      transform (run [Tick, Lapse 3000, Tick, Tick, Tick, Lapse 100, Tick, Lapse 500] s0) =
        - 300 * currentIndex (run [Tick, Lapse 3000, Tick, Tick, Tick, Lapse 100, Tick, Lapse 500] s0)"
proof -
  from build_Some[OF authored_3_300(1)]
  obtain s0 where b: "build (Some (authored 3 300)) = Inr s0"
    and w: "slideWidth s0 = offsetWidth (hd (authored 3 300))" "currentIndex s0 = 1" by simp
  from offset_follows_cursor[OF b]
  have i: "transform s0 = - slideWidth s0 * currentIndex s0"
    and r: "transform (run [Tick, Lapse 3000, Tick, Tick, Tick, Lapse 100, Tick, Lapse 500] s0) =
      - slideWidth s0 * currentIndex (run [Tick, Lapse 3000, Tick, Tick, Tick, Lapse 100, Tick, Lapse 500] s0)"
    by blast+
  from w authored_3_300(2) have w300: "slideWidth s0 = 300" by simp
  from i w300 w(2) have t: "transform s0 = - 300" by simp
  from r have r': "transform (run [Tick, Lapse 3000, Tick, Tick, Tick, Lapse 100, Tick, Lapse 500] s0) =
      - 300 * currentIndex (run [Tick, Lapse 3000, Tick, Tick, Tick, Lapse 100, Tick, Lapse 500] s0)"
    by (simp only: w300)
  from b w300 t r' show ?thesis by blast
qed

subsection \<open>The steady state\<close>

lemma elapse_idle:
  "timeouts s = [] \<Longrightarrow> elapse e s = s\<lparr>clock := clock s + e\<rparr>"
  by (simp add: elapse_def Let_def)

lemma elapse_due:
  "timeouts s = [clock s + REWIND_DELAY] \<Longrightarrow> REWIND_DELAY \<le> e \<Longrightarrow>
   elapse e s = (rewind s)\<lparr>clock := clock s + e, timeouts := []\<rparr>"
  by (simp add: elapse_def Let_def rewind_def)

lemma slideNext_settled:
  assumes "settled n k s0 s" "length (children s0) = n + 2"
  shows "children (slideNext s) = children s0 \<and> slideWidth (slideNext s) = slideWidth s0 \<and>
         currentIndex (slideNext s) = 2 + int (k mod (n + 1)) \<and>
         timeouts (slideNext s) = (if k mod (n + 1) = n then [clock (slideNext s) + REWIND_DELAY] else [])"
  using assms by (auto simp: settled_def slideNext_def Let_def)

lemma elapse_slideNext_settled:
  assumes "settled n k s0 s" "length (children s0) = n + 2" "REWIND_DELAY \<le> e"
  shows "settled n (Suc k) s0 (elapse e (slideNext s))"
proof (cases "k mod (n + 1) = n")
  case True
  with slideNext_settled[OF assms(1,2)]
  have t: "timeouts (slideNext s) = [clock (slideNext s) + REWIND_DELAY]"
    and c: "children (slideNext s) = children s0" "slideWidth (slideNext s) = slideWidth s0"
    by auto
  from True have m: "Suc k mod (n + 1) = 0" by (simp add: mod_Suc)
  show ?thesis
    unfolding elapse_due[OF t assms(3)] using c m
    by (simp add: settled_def rewind_def Let_def)
next
  case False
  with slideNext_settled[OF assms(1,2)]
  have t: "timeouts (slideNext s) = []"
    and c: "children (slideNext s) = children s0" "slideWidth (slideNext s) = slideWidth s0"
       "currentIndex (slideNext s) = 2 + int (k mod (n + 1))"
    by auto
  from False have m: "Suc k mod (n + 1) = Suc (k mod (n + 1))" by (simp add: mod_Suc)
  show ?thesis
    unfolding elapse_idle[OF t] using c m t
    by (simp add: settled_def)
qed

lemma ticks_settled:
  assumes "build (Some els) = Inr s0" "REWIND_DELAY \<le> d" "REWIND_DELAY \<le> e"
  shows "settled (length els) k s0 (elapse e (ticks d k s0))"
proof -
  from build_Inr[OF assms(1)] have len: "length (children s0) = length els + 2"
    and init: "currentIndex s0 = 1" "timeouts s0 = []" by auto
  have "\<And>e. REWIND_DELAY \<le> e \<Longrightarrow> settled (length els) k s0 (elapse e (ticks d k s0))"
  proof (induction k)
    case 0
    show ?case using init by (simp add: settled_def elapse_idle)
  next
    case (Suc k)
    from Suc.IH[OF assms(2)] have "settled (length els) k s0 (elapse d (ticks d k s0))" .
    from elapse_slideNext_settled[OF this len Suc.prems] show ?case by simp
  qed
  from this[OF assms(3)] show ?thesis .
qed

text \<open>
  What the tick does in the steady state, for every \<open>N \<ge> 1\<close>: the cursor it leaves runs
  through \<open>2, \<dots>, N + 2\<close>, and it sets a rewind exactly when that cursor is \<open>N + 2\<close>,
  the length of the extended track.
\<close>

lemma tick_in_steady_state:
  assumes "build (Some els) = Inr s0" "REWIND_DELAY \<le> d"
  shows "currentIndex (ticks d (Suc k) s0) = 2 + int (k mod (length els + 1)) \<and>
     timeouts (ticks d (Suc k) s0) =
       (if currentIndex (ticks d (Suc k) s0) = int (length els) + 2
        then [clock (ticks d (Suc k) s0) + REWIND_DELAY] else [])"
proof -
  from build_Inr[OF assms(1)] have len: "length (children s0) = length els + 2" by auto
  from slideNext_settled[OF ticks_settled[OF assms(1,2,2)] len, of k] show ?thesis by auto
qed

lemma authored_2_300:
  "authored 2 300 \<noteq> []" "offsetWidth (hd (authored 2 300)) = 300" "length (authored 2 300) = 2"
  by (simp_all add: authored_def upt_rec)

lemma ticks_numeral:
  "ticks d (numeral v) s = slideNext (elapse d (ticks d (pred_numeral v) s))"
  "ticks d 1 s = slideNext (elapse d s)"
  by (simp_all add: numeral_eq_Suc)

lemma fire_numeral:
  "fire (numeral v) s = fire (pred_numeral v) (rewind s)"
  "fire 1 s = rewind s"
  by (simp_all add: numeral_eq_Suc)

lemmas slider_eval = after_tick_def at_rest_def cursor_after_tick_def rendered_cursor_def
  build_def authored_def cloneNode_def slideNext_def rewind_def elapse_def Let_def
  REWIND_DELAY_def TICK_INTERVAL_def snapshot_def in_view_def upt_rec ticks_numeral fire_numeral

text \<open>
  Claim C1, evaluated on the code for \<open>N = 3\<close> slides of width \<open>300\<close> at the cadence of the
  script. The third tick leaves the cursor at \<open>N + 1 = 4\<close>, on the trailing clone, and sets
  no rewind; the fourth tick leaves it at \<open>N + 2 = 5\<close> and sets the rewind, due \<open>500\<close> ms
  after that tick. The rewind is set at the live length of the track, not at \<open>N + 1\<close>.
\<close>

theorem slideNext_rewind_at_live_length:
  "cursor_after_tick TICK_INTERVAL 3 (Some (authored 3 300)) = Inr (3 + 1) \<and>
   map_sum id timeouts (after_tick TICK_INTERVAL 3 (Some (authored 3 300))) = Inr [] \<and>
   cursor_after_tick TICK_INTERVAL 4 (Some (authored 3 300)) = Inr (3 + 2) \<and>
   map_sum id timeouts (after_tick TICK_INTERVAL 4 (Some (authored 3 300))) = Inr [4 * 3000 + 500]"
  by (simp add: slider_eval)

text \<open>
  Claim C2, evaluated on the code for \<open>N = 3\<close>, \<open>W = 300\<close>. The build and the first three
  ticks give the cursors, offsets and transition of the scenario. The third tick sets no
  rewind: \<open>500\<close> ms after it the cursor is still \<open>4\<close>, the offset \<open>- 1200\<close> and the
  transition the animated one. The rewind comes with the fourth tick, from cursor \<open>5\<close>
  and offset \<open>- 1500\<close>, and then leaves transition \<open>none\<close>, cursor \<open>1\<close>, offset \<open>- 300\<close>.
\<close>

theorem scenario_three_slides:
  "map_sum id snapshot (build (Some (authored 3 300))) = Inr (1, - 300, [], []) \<and>
   map_sum id snapshot (after_tick TICK_INTERVAL 1 (Some (authored 3 300))) =
     Inr (2, - 600, ''transform 0.5s ease-in-out'', []) \<and>
   map_sum id snapshot (after_tick TICK_INTERVAL 2 (Some (authored 3 300))) =
     Inr (3, - 900, ''transform 0.5s ease-in-out'', []) \<and>
   map_sum id snapshot (after_tick TICK_INTERVAL 3 (Some (authored 3 300))) =
     Inr (4, - 1200, ''transform 0.5s ease-in-out'', []) \<and>
   map_sum id snapshot (at_rest TICK_INTERVAL 3 (Some (authored 3 300))) =
     Inr (4, - 1200, ''transform 0.5s ease-in-out'', []) \<and>
   map_sum id snapshot (after_tick TICK_INTERVAL 4 (Some (authored 3 300))) =
     Inr (5, - 1500, ''transform 0.5s ease-in-out'', [12500]) \<and>
   map_sum id snapshot (at_rest TICK_INTERVAL 4 (Some (authored 3 300))) =
     Inr (1, - 300, ''none'', [])"
  by (simp add: slider_eval)

text \<open>
  A tick adds one to a cursor that is never below \<open>1\<close> (the build and the rewind set it to
  \<open>1\<close>, and nothing lowers it), and the reset to \<open>1\<close> is left to a timeout. So right
  after a tick, whatever the history, the cursor is at least \<open>2\<close>.
\<close>

lemma cursor_at_least_1:
  assumes "build c = Inr s0"
  shows "1 \<le> currentIndex (run es s0)"
proof -
  have fire1: "\<And>n s. 1 \<le> currentIndex s \<Longrightarrow> 1 \<le> currentIndex (fire n s)"
  proof -
    fix n s show "1 \<le> currentIndex s \<Longrightarrow> 1 \<le> currentIndex (fire n s)"
      by (induction n arbitrary: s) (simp_all add: rewind_def Let_def)
  qed
  have step: "\<And>s. 1 \<le> currentIndex s \<Longrightarrow> 1 \<le> currentIndex (run es s)"
  proof (induction es)
    case Nil
    then show ?case by simp
  next
    case (Cons e es)
    show ?case
    proof (cases e)
      case Tick
      from Cons.prems have "1 \<le> currentIndex (slideNext s)" by (simp add: slideNext_def Let_def)
      with Cons.IH Tick show ?thesis by simp
    next
      case (Lapse d)
      from fire1[OF Cons.prems] have "1 \<le> currentIndex (elapse d s)"
        by (simp add: elapse_def Let_def)
      with Cons.IH Lapse show ?thesis by simp
    qed
  qed
  from assms obtain els where "c = Some els" using build_container by blast
  with assms build_Inr[of els s0] have "currentIndex s0 = 1" by auto
  with step[of s0] show ?thesis by simp
qed

lemma cursor_after_any_tick:
  assumes "build c = Inr s0"
  shows "2 \<le> currentIndex (slideNext (run es s0))"
  using cursor_at_least_1[OF assms, of es] by (simp add: slideNext_def Let_def)

text \<open>
  Claim C3 as stated fails: with \<open>N = 2\<close> slides at the cadence of the script, the cursor
  right after the third tick, before the rewind that tick has set runs, is \<open>4\<close>, and
  \<open>1 + (3 mod (N + 1)) = 1\<close>. The formula gives \<open>1\<close> whenever \<open>k mod (N + 1) = 0\<close>, a value
  the cursor never has right after a tick.
\<close>

theorem cursor_before_rewind_counterexample:
  "2 \<le> length (authored 2 300) \<and> REWIND_DELAY \<le> TICK_INTERVAL \<and>
   cursor_after_tick TICK_INTERVAL 3 (Some (authored 2 300)) = Inr 4 \<and>
   cursor_after_tick TICK_INTERVAL 3 (Some (authored 2 300)) \<noteq> Inr (1 + int (3 mod (2 + 1)))"
  by (simp add: slider_eval)

lemma ticks_spaced_first_pass:
  assumes "timeouts s = []" "length (children s) = n + 2" "1 \<le> currentIndex s"
    and "currentIndex s + int (length ds) \<le> int n + 1"
  shows "currentIndex (ticks_spaced ds s) = currentIndex s + int (length ds)"
  using assms
proof (induction ds arbitrary: s)
  case Nil
  then show ?case by simp
next
  case (Cons d ds)
  let ?s = "slideNext (elapse d s)"
  from Cons.prems(1) have e: "elapse d s = s\<lparr>clock := clock s + d\<rparr>" by (rule elapse_idle)
  from Cons.prems have ne: "currentIndex s + 1 \<noteq> int (length (children s))" by simp
  from e ne have c: "currentIndex ?s = currentIndex s + 1" and t: "timeouts ?s = timeouts s"
    and ch: "children ?s = children s"
    by (simp_all add: slideNext_def Let_def)
  from Cons.prems c t ch
  have "currentIndex (ticks_spaced ds ?s) = currentIndex ?s + int (length ds)"
    by (intro Cons.IH) simp_all
  with c show ?case by simp
qed

text \<open>
  Claim C3, amended. For every \<open>N \<ge> 2\<close> and every \<open>k\<close> with \<open>1 \<le> k \<le> N\<close>, when each tick
  comes no closer than the rewind delay to the one before it, the cursor observed after
  the \<open>k\<close>-th tick and before any pending rewind fires equals \<open>1 + (k mod (N + 1))\<close>, that
  is \<open>1 + k\<close>. Nothing is said of the ticks from the \<open>(N + 1)\<close>-th on.
\<close>

theorem cursor_first_pass:
  assumes "2 \<le> length els" "1 \<le> length ds" "length ds \<le> length els"
    and "list_all (\<lambda>d. REWIND_DELAY \<le> d) ds"
  shows "cursor_after_gaps ds (Some els) = Inr (1 + int (length ds mod (length els + 1))) \<and>
         cursor_after_gaps ds (Some els) = Inr (1 + int (length ds))"
proof -
  from assms(1) have "els \<noteq> []" by auto
  from build_Some[OF this] obtain s0 where b: "build (Some els) = Inr s0" by simp
  from build_Inr[OF b] have s0: "timeouts s0 = []" "length (children s0) = length els + 2"
    "currentIndex s0 = 1" by auto
  from s0 assms(3) have "currentIndex (ticks_spaced ds s0) = currentIndex s0 + int (length ds)"
    by (intro ticks_spaced_first_pass[of s0 "length els"]) simp_all
  with s0 have c: "currentIndex (ticks_spaced ds s0) = 1 + int (length ds)" by simp
  from assms(3) have m: "length ds mod (length els + 1) = length ds" by simp
  from b c m show ?thesis by (simp add: cursor_after_gaps_def)
qed

theorem cursor_first_pass_witness:
  "2 \<le> length (authored 2 300) \<and> 1 \<le> length [3000, 700 :: nat] \<and>
   length [3000, 700 :: nat] \<le> length (authored 2 300) \<and>
   list_all (\<lambda>d. REWIND_DELAY \<le> d) [3000, 700] \<and>
   cursor_after_gaps [3000, 700] (Some (authored 2 300)) = Inr 3"
proof -
  have h: "2 \<le> length (authored 2 300)" "1 \<le> length [3000, 700 :: nat]"
    "length [3000, 700 :: nat] \<le> length (authored 2 300)"
    "list_all (\<lambda>d. REWIND_DELAY \<le> d) [3000, 700]"
    by (simp_all add: authored_2_300 REWIND_DELAY_def)
  from cursor_first_pass[OF h] h show ?thesis by simp
qed

text \<open>
  Claim C4, evaluated on the code for \<open>N = 3\<close>, \<open>W = 300\<close>. The cursors the view rests on
  after ticks \<open>1\<close> to \<open>5\<close> are \<open>2, 3, 4, 1, 2\<close>: the period is \<open>N + 1 = 4\<close>, not \<open>3\<close>. The
  elements in view are slides \<open>1, 2\<close>, the trailing clone of slide \<open>0\<close>, then slide \<open>0\<close>
  itself, so the content of slide \<open>0\<close> is rendered on two ticks out of every four.
\<close>

theorem rendered_positions_three_slides:
  "map (\<lambda>k. rendered_cursor TICK_INTERVAL k (Some (authored 3 300))) [1, 2, 3, 4, 5] =
     map Inr [2, 3, 4, 1, 2] \<and>
   map (\<lambda>k. map_sum id (map_option ident \<circ> in_view) (at_rest TICK_INTERVAL k (Some (authored 3 300))))
       [1, 2, 3, 4, 5] =
     map Inr [Some 1, Some 2, Some 0, Some 0, Some 1]"
  by (simp add: slider_eval)

text \<open>
  Claim C7, evaluated on the code for \<open>N = 3\<close>, \<open>W = 300\<close>. When the rewind runs, after the
  fourth tick, the offset before it is \<open>- 1500\<close>, which puts no child of the track in view
  (the trailing clone is at index \<open>4\<close>, offset \<open>- 1200\<close>); the offset after it is \<open>- 300\<close>,
  with the real slide \<open>0\<close> in view. The reset does not start from a boundary clone.
\<close>

theorem rewind_from_beyond_track:
  "map_sum id transition (after_tick TICK_INTERVAL 4 (Some (authored 3 300))) = Inr ''transform 0.5s ease-in-out'' \<and>
   map_sum id transform (after_tick TICK_INTERVAL 4 (Some (authored 3 300))) = Inr (- 1500) \<and>
   map_sum id in_view (after_tick TICK_INTERVAL 4 (Some (authored 3 300))) = Inr None \<and>
   map_sum id transition (at_rest TICK_INTERVAL 4 (Some (authored 3 300))) = Inr ''none'' \<and>
   map_sum id transform (at_rest TICK_INTERVAL 4 (Some (authored 3 300))) = Inr (- 300) \<and>
   map_sum id in_view (at_rest TICK_INTERVAL 4 (Some (authored 3 300))) =
     Inr (Some \<lparr>ident = 0, offsetWidth = 300, cloned = False\<rparr>)"
  by (simp add: slider_eval)


section \<open>Properties of the banner rotator\<close>

declare hide_from.simps [simp del]

lemma hide_from_eq:
  "i \<le> length ds \<Longrightarrow> hide_from i ds = take i ds @ replicate (length ds - i) ''none''"
proof (induction i ds rule: hide_from.induct)
  case (1 i ds)
  show ?case
  proof (cases "i < length ds")
    case True
    then have "hide_from i ds = hide_from (Suc i) (ds[i := ''none''])"
      by (simp add: hide_from.simps[of i ds])
    also from True 1 have "\<dots> = take (Suc i) (ds[i := ''none'']) @ replicate (length ds - Suc i) ''none''"
      by simp
    also from True have "\<dots> = take i ds @ replicate (Suc (length ds - Suc i)) ''none''"
      by (simp add: take_Suc_conv_app_nth)
    also from True have "Suc (length ds - Suc i) = length ds - i" by simp
    finally show ?thesis .
  next
    case False
    with 1 have "i = length ds" by simp
    then show ?thesis by (simp add: hide_from.simps[of "length ds" ds])
  qed
qed

lemma hide_all: "hide_from 0 ds = replicate (length ds) ''none''"
  using hide_from_eq[of 0 ds] by simp

lemma changeBackground_eq:
  assumes "display b \<noteq> []"
  shows "changeBackground b =
     Inr \<lparr>indexBanner = (if length (display b) \<le> indexBanner b then 0 else indexBanner b),
          display = (replicate (length (display b)) ''none'')
             [(if length (display b) \<le> indexBanner b then 0 else indexBanner b) := ''block'']\<rparr>"
  using assms by (simp add: changeBackground_def Let_def hide_all)

lemma rotations_eq:
  assumes "ds \<noteq> []"
  shows "rotations k ds =
     Inr \<lparr>indexBanner = k mod length ds,
          display = (replicate (length ds) ''none'')[k mod length ds := ''block'']\<rparr>"
proof (induction k)
  case 0
  from assms show ?case by (simp add: load_banners_def changeBackground_eq)
next
  case (Suc k)
  from assms have pos: "0 < length ds" by simp
  then have lt: "k mod length ds < length ds" by simp
  show ?case
  proof (cases "Suc (k mod length ds) = length ds")
    case True
    then show ?thesis using Suc assms
      by (simp add: nextBanner_def changeBackground_eq mod_Suc)
  next
    case False
    with lt have "Suc (k mod length ds) < length ds" by simp
    then show ?thesis using Suc assms False
      by (simp add: nextBanner_def changeBackground_eq mod_Suc)
  qed
qed

lemma count_list_replicate_other: "x \<noteq> y \<Longrightarrow> count_list (replicate n x) y = 0"
  by (induction n) simp_all

lemma count_list_replicate_same: "count_list (replicate n x) x = n"
  by (induction n) simp_all

lemma count_list_one_block:
  "j < n \<Longrightarrow> x \<noteq> y \<Longrightarrow> count_list ((replicate n x)[j := y]) y = 1"
proof (induction n arbitrary: j)
  case 0
  then show ?case by simp
next
  case (Suc n)
  then show ?case by (cases j) (simp_all add: count_list_replicate_other)
qed

lemma count_list_others:
  "j < n \<Longrightarrow> x \<noteq> y \<Longrightarrow> count_list ((replicate n x)[j := y]) x = n - 1"
proof (induction n arbitrary: j)
  case 0
  then show ?case by simp
next
  case (Suc n)
  show ?case
  proof (cases j)
    case 0
    with Suc.prems show ?thesis by (simp add: count_list_replicate_same)
  next
    case (Suc j')
    with Suc.prems Suc.IH[of j'] show ?thesis by (cases n) simp_all
  qed
qed

text \<open>
  Claim C8. With at least one banner on the page, the rotator runs without raising; it
  starts with index \<open>0\<close>; at \<open>t\<close> milliseconds after the load, \<open>t div 3000\<close> rotation steps
  have run and the index is \<open>(t div 3000) mod n\<close>, so each step adds one and the index
  goes back to \<open>0\<close> when it reaches the number \<open>n\<close> of banners; and at every such instant
  the banner at the index has \<^verbatim>\<open>display: block\<close> and every other banner
  \<^verbatim>\<open>display: none\<close>, whatever the styles were at the load.
\<close>

theorem one_banner_shown:
  assumes "ds \<noteq> []"
  shows "\<exists>b. banner_at t ds = Inr b \<and>
           banner_at t ds = rotations (t div BANNER_INTERVAL) ds \<and>
           rotations 0 ds = Inr \<lparr>indexBanner = 0, display = (replicate (length ds) ''none'')[0 := ''block'']\<rparr> \<and>
           indexBanner b = (t div BANNER_INTERVAL) mod length ds \<and>
           display b = (replicate (length ds) ''none'')[indexBanner b := ''block''] \<and>
           count_list (display b) ''block'' = 1 \<and>
           count_list (display b) ''none'' = length ds - 1"
proof -
  let ?k = "t div BANNER_INTERVAL"
  let ?j = "?k mod length ds"
  let ?b = "\<lparr>indexBanner = ?j, display = (replicate (length ds) ''none'')[?j := ''block'']\<rparr>"
  from assms have lt: "?j < length ds" by simp
  have r: "rotations ?k ds = Inr ?b" by (rule rotations_eq[OF assms])
  have r0: "rotations 0 ds = Inr \<lparr>indexBanner = 0, display = (replicate (length ds) ''none'')[0 := ''block'']\<rparr>"
    using rotations_eq[OF assms, of 0] by simp
  have one: "count_list (display ?b) ''block'' = 1"
    using count_list_one_block[OF lt, of "''none''" "''block''"] by simp
  have rest: "count_list (display ?b) ''none'' = length ds - 1"
    using count_list_others[OF lt, of "''none''" "''block''"] by simp
  from r r0 one rest show ?thesis by (simp add: banner_at_def)
qed

theorem one_banner_shown_witness:
  "[''block'', ''block'', []] \<noteq> [] \<and>
   (\<exists>b. banner_at 9500 [''block'', ''block'', []] = Inr b \<and> indexBanner b = 0 \<and>
        display b = [''block'', ''none'', ''none''])"
proof -
  let ?ds = "[''block'', ''block'', []] :: string list"
  have ne: "?ds \<noteq> []" by simp
  from one_banner_shown[OF ne, of 9500]
  obtain b where all: "banner_at 9500 ?ds = Inr b \<and>
           banner_at 9500 ?ds = rotations (9500 div BANNER_INTERVAL) ?ds \<and>
           rotations 0 ?ds = Inr \<lparr>indexBanner = 0, display = (replicate (length ?ds) ''none'')[0 := ''block'']\<rparr> \<and>
           indexBanner b = (9500 div BANNER_INTERVAL) mod length ?ds \<and>
           display b = (replicate (length ?ds) ''none'')[indexBanner b := ''block''] \<and>
           count_list (display b) ''block'' = 1 \<and>
           count_list (display b) ''none'' = length ?ds - 1"
    by (rule exE)
  note b = all[THEN conjunct1]
  note i = all[THEN conjunct2, THEN conjunct2, THEN conjunct2, THEN conjunct1]
  note d = all[THEN conjunct2, THEN conjunct2, THEN conjunct2, THEN conjunct2, THEN conjunct1]
  have "(9500 div BANNER_INTERVAL) mod length ?ds = 0" by (simp add: BANNER_INTERVAL_def)
  with i have i0: "indexBanner b = 0" by (simp only:)
  have "(replicate (length ?ds) ''none'')[0 := ''block''] = [''block'', ''none'', ''none'']"
    by (simp add: numeral_3_eq_3)
  with d i0 have d0: "display b = [''block'', ''none'', ''none'']" by (simp only:)
  show ?thesis
    by (intro conjI exI[of _ b]) (rule ne b i0 d0)+
qed


section \<open>Properties of the contact form\<close>

lemma success_not_error: "success_message a b \<noteq> error_message"
  by (simp add: success_message_def error_message_def lit_def)

text \<open>
  Claim C9. On a page that has the three controls and the form, \<^verbatim>\<open>formValidation\<close> shows
  the success dialog and sets the timeout that resets the form exactly when the three
  trimmed values are all non-empty, and the click then ends with every control of the
  form back at its default value; nothing else about the email value is tested, so any
  email that is not empty after trimming is accepted. Otherwise it shows the error
  dialog, sets no timeout and leaves the controls as they are. The two dialogs differ.
\<close>

theorem formValidation_nonempty_fields:
  assumes "document p ''name-input'' = Some (Input n dn)"
    and "document p ''email'' = Some (Input e de)"
    and "document p ''message'' = Some (Input m dm)"
    and "document p ''contact-form'' = Some (Form cs)"
    and "resets_pending p = 0"
  shows "formValidation p =
           Inr (if trim n \<noteq> [] \<and> trim e \<noteq> [] \<and> trim m \<noteq> []
                then p\<lparr>alerts := alerts p @ [success_message (trim n) (trim e)],
                       resets_pending := 1\<rparr>
                else p\<lparr>alerts := alerts p @ [error_message]\<rparr>) \<and>
         click_submit p =
           Inr (if trim n \<noteq> [] \<and> trim e \<noteq> [] \<and> trim m \<noteq> []
                then p\<lparr>document := fold reset_control cs (document p),
                       alerts := alerts p @ [success_message (trim n) (trim e)]\<rparr>
                else p\<lparr>alerts := alerts p @ [error_message]\<rparr>) \<and>
         success_message (trim n) (trim e) \<noteq> error_message"
  using assms
  by (simp add: formValidation_def click_submit_def trimmed_value_def reset_form_def
      success_not_error)

lemma trim_examples:
  "trim (lit ''  Ada '') = lit ''Ada''" "trim (lit ''not-an-email'') = lit ''not-an-email''"
  "trim (lit ''hi'') = lit ''hi''" "trim (lit ''   '') = []"
  by (simp_all add: trim_def lit_def isWhiteSpace_def)

theorem formValidation_nonempty_fields_witness:
  "formValidation (filled_page (lit ''  Ada '') (lit ''not-an-email'') (lit ''hi'')) =
     Inr ((filled_page (lit ''  Ada '') (lit ''not-an-email'') (lit ''hi''))
           \<lparr>alerts := alerts (filled_page (lit ''  Ada '') (lit ''not-an-email'') (lit ''hi'')) @
                        [success_message (lit ''Ada'') (lit ''not-an-email'')],
             resets_pending := 1\<rparr>) \<and>
   click_submit (filled_page (lit ''  Ada '') (lit ''not-an-email'') (lit ''hi'')) =
     Inr ((filled_page (lit ''  Ada '') (lit ''not-an-email'') (lit ''hi''))
           \<lparr>document := document (filled_page [] [] []),
             alerts := alerts (filled_page (lit ''  Ada '') (lit ''not-an-email'') (lit ''hi'')) @
                        [success_message (lit ''Ada'') (lit ''not-an-email'')]\<rparr>) \<and>
   click_submit (filled_page (lit ''Ada'') (lit ''   '') (lit ''hi'')) =
     Inr ((filled_page (lit ''Ada'') (lit ''   '') (lit ''hi''))
           \<lparr>alerts := alerts (filled_page (lit ''Ada'') (lit ''   '') (lit ''hi'')) @ [error_message]\<rparr>)"
proof -
  let ?p = "filled_page (lit ''  Ada '') (lit ''not-an-email'') (lit ''hi'')"
  let ?q = "filled_page (lit ''Ada'') (lit ''   '') (lit ''hi'')"
  have hp: "document ?p ''name-input'' = Some (Input (lit ''  Ada '') [])"
    "document ?p ''email'' = Some (Input (lit ''not-an-email'') [])"
    "document ?p ''message'' = Some (Input (lit ''hi'') [])"
    "document ?p ''contact-form'' = Some (Form [''name-input'', ''email'', ''message''])"
    "resets_pending ?p = 0"
    by (simp_all add: filled_page_def)
  have hq: "document ?q ''name-input'' = Some (Input (lit ''Ada'') [])"
    "document ?q ''email'' = Some (Input (lit ''   '') [])"
    "document ?q ''message'' = Some (Input (lit ''hi'') [])"
    "document ?q ''contact-form'' = Some (Form [''name-input'', ''email'', ''message''])"
    "resets_pending ?q = 0"
    by (simp_all add: filled_page_def)
  have r: "reset_control ''message'' (reset_control ''email'' (reset_control ''name-input''
      (document ?p))) = document (filled_page [] [] [])"
    by (rule ext) (simp add: filled_page_def reset_control_def)
  have ne: "lit ''Ada'' \<noteq> []" "lit ''not-an-email'' \<noteq> []" "lit ''hi'' \<noteq> []"
    by (simp_all add: lit_def)
  have t2: "trim (lit ''Ada'') = lit ''Ada''" by (simp add: trim_def lit_def isWhiteSpace_def)
  from formValidation_nonempty_fields[OF hp]
  have P: "formValidation ?p =
      Inr (?p\<lparr>alerts := alerts ?p @ [success_message (lit ''Ada'') (lit ''not-an-email'')],
               resets_pending := 1\<rparr>)"
    "click_submit ?p =
      Inr (?p\<lparr>document := document (filled_page [] [] []),
               alerts := alerts ?p @ [success_message (lit ''Ada'') (lit ''not-an-email'')]\<rparr>)"
    by (simp_all add: trim_examples ne r)
  from formValidation_nonempty_fields[OF hq]
  have Q: "click_submit ?q = Inr (?q\<lparr>alerts := alerts ?q @ [error_message]\<rparr>)"
    by (simp add: trim_examples t2 ne)
  from P Q show ?thesis by (intro conjI)
qed


section \<open>Properties of the mobile menu\<close>

lemma run_steps_flag:
  assumes "\<And>f s. f \<in> set fs \<Longrightarrow> isMenuOpen (state_of (f s)) = isMenuOpen s"
  shows "isMenuOpen (state_of (run_steps fs s)) = isMenuOpen s"
  using assms
proof (induction fs arbitrary: s)
  case Nil
  then show ?case by simp
next
  case (Cons f fs)
  have h: "isMenuOpen (state_of (f s)) = isMenuOpen s" using Cons.prems by simp
  show ?case
  proof (cases "f s")
    case (Done s')
    with h Cons show ?thesis by simp
  next
    case (Threw e s')
    with h show ?thesis by simp
  qed
qed

lemma on_element_flag: "isMenuOpen (state_of (on_element entry f s)) = isMenuOpen s"
  by (simp add: on_element_def split: option.splits)

lemma open_flag: "isMenuOpen (state_of (openMobileMenu s))"
proof (cases "isMenuOpen s")
  case True
  then show ?thesis by (simp add: openMobileMenu_def)
next
  case False
  have "isMenuOpen (state_of (run_steps
        [on_element mobileToggle (classList_add ''active''),
         on_element nav (classList_add ''mobile-menu-open''),
         on_element body (set_overflow ''hidden''),
         on_element mobileToggle (setAttribute ''aria-expanded'' ''true''),
         on_element nav (setAttribute ''aria-hidden'' ''false'')] (s\<lparr>isMenuOpen := True\<rparr>)))
       = isMenuOpen (s\<lparr>isMenuOpen := True\<rparr>)"
    by (rule run_steps_flag) (auto simp: on_element_flag)
  with False show ?thesis by (simp add: openMobileMenu_def set_isMenuOpen_def)
qed

lemma close_flag: "\<not> isMenuOpen (state_of (closeMobileMenu s))"
proof (cases "isMenuOpen s")
  case False
  then show ?thesis by (simp add: closeMobileMenu_def)
next
  case True
  have "isMenuOpen (state_of (run_steps
        [on_element mobileToggle (classList_remove ''active''),
         on_element nav (classList_remove ''mobile-menu-open''),
         on_element body (set_overflow []),
         on_element mobileToggle (setAttribute ''aria-expanded'' ''false''),
         on_element nav (setAttribute ''aria-hidden'' ''true'')] (s\<lparr>isMenuOpen := False\<rparr>)))
       = isMenuOpen (s\<lparr>isMenuOpen := False\<rparr>)"
    by (rule run_steps_flag) (auto simp: on_element_flag)
  with True show ?thesis by (simp add: closeMobileMenu_def set_isMenuOpen_def)
qed

text \<open>
  Claim C10. \<^verbatim>\<open>openMobileMenu\<close> changes nothing when the menu is open and
  \<^verbatim>\<open>closeMobileMenu\<close> changes nothing when it is closed. So a second call of either,
  right after a first one, completes and leaves the whole state (the flag, the class
  lists, the overflow style and the attributes of every element) as the first call left
  it, also when the first call threw on a missing element.
\<close>

theorem menu_open_close_idempotent:
  "(isMenuOpen s \<longrightarrow> openMobileMenu s = Done s) \<and>
   (\<not> isMenuOpen s \<longrightarrow> closeMobileMenu s = Done s) \<and>
   openMobileMenu (state_of (openMobileMenu s)) = Done (state_of (openMobileMenu s)) \<and>
   closeMobileMenu (state_of (closeMobileMenu s)) = Done (state_of (closeMobileMenu s))"
  using open_flag[of s] close_flag[of s]
  by (simp add: openMobileMenu_def closeMobileMenu_def)

lemma open_closed_menu:
  "openMobileMenu closed_menu =
     Done \<lparr>isMenuOpen = True,
           store = (\<lambda>a. \<lparr>classList = [], attributes = Map.empty, style_overflow = []\<rparr>)
             (0 := \<lparr>classList = [''active''], attributes = [''aria-expanded'' \<mapsto> ''true''], style_overflow = []\<rparr>,
              1 := \<lparr>classList = [''mobile-menu-open''], attributes = [''aria-hidden'' \<mapsto> ''false''], style_overflow = []\<rparr>,
              2 := \<lparr>classList = [], attributes = Map.empty, style_overflow = ''hidden''\<rparr>),
           mobileToggle = Some 0, nav = Some 1, body = Some 2\<rparr>"
  by (simp add: openMobileMenu_def closed_menu_def on_element_def set_isMenuOpen_def
      classList_add_def setAttribute_def set_overflow_def fun_upd_twist)

theorem menu_open_close_idempotent_witness:
  "\<not> isMenuOpen closed_menu \<and> closeMobileMenu closed_menu = Done closed_menu \<and>
   isMenuOpen (state_of (openMobileMenu closed_menu)) \<and>
   state_of (openMobileMenu closed_menu) \<noteq> closed_menu \<and>
   openMobileMenu (state_of (openMobileMenu closed_menu)) = Done (state_of (openMobileMenu closed_menu))"
proof -
  have c: "\<not> isMenuOpen closed_menu" by (simp add: closed_menu_def)
  have o: "isMenuOpen (state_of (openMobileMenu closed_menu))" by (simp add: open_closed_menu)
  have n: "state_of (openMobileMenu closed_menu) \<noteq> closed_menu"
    using c o by metis
  from menu_open_close_idempotent[of closed_menu]
    menu_open_close_idempotent[of "state_of (openMobileMenu closed_menu)"] c o n
  show ?thesis by (simp only: simp_thms)
qed

end
